theory Spec2Isabelle
  imports Complex_Main
begin

section \<open>Step functions as closures\<close>

text \<open>
  A \<^verbatim>\<open>SpanStepFunction<T>\<close> is a JavaScript closure \<^verbatim>\<open>(scale?: number) => T\<close>.
  Several of the closures built by the library own private mutable variables (the
  counter of \<^verbatim>\<open>arrayPick\<close>, the \<^verbatim>\<open>timer\<close>, \<^verbatim>\<open>repeated\<close>, \<^verbatim>\<open>expired\<close> and
  \<^verbatim>\<open>firstCycle\<close> variables of \<^verbatim>\<open>_timerWrapper\<close>), so a call returns a value and
  leaves behind the closure that the next call will find. Numbers are modelled
  as real numbers; a call without argument is the call at \<open>0\<close>, the default value
  of the parameter.
\<close>

codatatype 'v SpanStepFunction =
  SpanStepFunction (call: "real \<Rightarrow> 'v \<times> 'v SpanStepFunction")

text \<open>\<open>closure body s\<close> is the closure with body \<open>body\<close> whose captured variables hold \<open>s\<close>.\<close>

primcorec closure :: "('s \<Rightarrow> real \<Rightarrow> 'v \<times> 's) \<Rightarrow> 's \<Rightarrow> 'v SpanStepFunction" where
  "call (closure body s) = (\<lambda>x. map_prod id (closure body) (body s x))"

text \<open>A step function without captured mutable variables.\<close>

definition pure_step :: "(real \<Rightarrow> 'v) \<Rightarrow> 'v SpanStepFunction" where
  "pure_step f = closure (\<lambda>(u::unit) x. (f x, u)) ()"

text \<open>The values returned by successive calls, and the closure left behind by them.\<close>

primrec calls :: "'v SpanStepFunction \<Rightarrow> real list \<Rightarrow> 'v list" where
  "calls f [] = []"
| "calls f (x # xs) = fst (call f x) # calls (snd (call f x)) xs"

primrec after :: "'v SpanStepFunction \<Rightarrow> real list \<Rightarrow> 'v SpanStepFunction" where
  "after f [] = f"
| "after f (x # xs) = after (snd (call f x)) xs"

section \<open>Temporal parameters and the timer wrapper\<close>

text \<open>
  \<^verbatim>\<open>repeat\<close> is a number whose default is \<^verbatim>\<open>Infinity\<close>; \<open>ge_number n r\<close> is the
  comparison \<^verbatim>\<open>n >= r\<close> of a counter with it.
\<close>

datatype number = Num real | Infinity

fun ge_number :: "nat \<Rightarrow> number \<Rightarrow> bool" where
  "ge_number n (Num r) = (r \<le> real n)"
| "ge_number n Infinity = False"

text \<open>\<^verbatim>\<open>SpanTimerParams\<close>: every field is optional.\<close>

record SpanTimerParams =
  speed :: "real option"
  delay :: "real option"
  repeat :: "number option"
  alternate :: "bool option"

text \<open>The private fields \<^verbatim>\<open>_hasTimer\<close>, \<^verbatim>\<open>_speed\<close>, \<^verbatim>\<open>_delay\<close>, \<^verbatim>\<open>_repeat\<close>, \<^verbatim>\<open>_alternate\<close> of a Span.\<close>

record SpanTimer =
  Span_hasTimer :: bool
  Span_speed :: real
  Span_delay :: real
  Span_repeat :: number
  Span_alternate :: bool

text \<open>
  \<^verbatim>\<open>Span.timer\<close>: the destructuring defaults apply to absent fields. (With
  \<^verbatim>\<open>reset\<close> the method then re-applies the Span's own configuration; \<^verbatim>\<open>set\<close> calls
  it without.)
\<close>

definition Span_timer :: "SpanTimerParams \<Rightarrow> SpanTimer" where
  "Span_timer params =
    (let speed' = (case speed params of None \<Rightarrow> 1 | Some v \<Rightarrow> v);
         delay' = (case delay params of None \<Rightarrow> 0 | Some v \<Rightarrow> v);
         repeat' = (case repeat params of None \<Rightarrow> Infinity | Some v \<Rightarrow> v);
         alternate' = (case alternate params of None \<Rightarrow> False | Some v \<Rightarrow> v)
     in \<lparr>Span_hasTimer = (speed' \<noteq> 1 \<or> delay' \<noteq> 0 \<or> repeat' \<noteq> Infinity \<or> alternate'),
         Span_speed = speed', Span_delay = delay', Span_repeat = repeat',
         Span_alternate = alternate'\<rparr>)"

text \<open>The variables captured by the closure that \<^verbatim>\<open>_timerWrapper\<close> returns.\<close>

record timer_vars =
  timer :: real
  repeated :: nat
  expired :: bool
  firstCycle :: bool

definition timer_init :: timer_vars where
  "timer_init = \<lparr>timer = 0, repeated = 0, expired = False, firstCycle = True\<rparr>"

text \<open>
  One call of the wrapper, up to the call of the wrapped step function: the
  argument that is passed on to \<^verbatim>\<open>stepFunction\<close> and the variables afterwards.
  \<^verbatim>\<open>duration\<close> is \<^verbatim>\<open>Math.abs(_speed)\<close>.
\<close>

definition timer_advance :: "SpanTimer \<Rightarrow> timer_vars \<Rightarrow> real \<Rightarrow> real \<times> timer_vars" where
  "timer_advance this s step0 =
    (if expired s then (1, s)
     else
       let step = step0 * Span_speed this;
           s1 = s\<lparr>timer := timer s + \<bar>step\<bar>\<rparr>
       in if firstCycle s1 \<and> timer s1 < Span_delay this then (0, s1)
          else
            let s2 = (if firstCycle s1
                      then s1\<lparr>firstCycle := False, timer := timer s1 - Span_delay this\<rparr>
                      else s1)
            in if timer s2 \<ge> \<bar>Span_speed this\<bar>
               then
                 let s3 = s2\<lparr>timer := 0, repeated := repeated s2 + 1\<rparr>
                 in if ge_number (repeated s3) (Span_repeat this)
                    then (step, s3\<lparr>expired := True\<rparr>)
                    else if Span_alternate this \<and> odd (repeated s3) then (1 - step, s3)
                    else (step, s3)
               else (step, s2))"

definition timerWrapper_body ::
  "SpanTimer \<Rightarrow> timer_vars \<times> 'v SpanStepFunction \<Rightarrow> real
     \<Rightarrow> 'v \<times> (timer_vars \<times> 'v SpanStepFunction)" where
  "timerWrapper_body this = (\<lambda>(s, stepFunction) step.
     let (p, s') = timer_advance this s step;
         (v, stepFunction') = call stepFunction p
     in (v, (s', stepFunction')))"

text \<open>\<^verbatim>\<open>Span._timerWrapper\<close>.\<close>

definition Span_timerWrapper :: "SpanTimer \<Rightarrow> 'v SpanStepFunction \<Rightarrow> 'v SpanStepFunction" where
  "Span_timerWrapper this stepFunction = closure (timerWrapper_body this) (timer_init, stepFunction)"

text \<open>The variables of the wrapper after a sequence of calls.\<close>

definition timer_vars_after :: "SpanTimer \<Rightarrow> timer_vars \<Rightarrow> real list \<Rightarrow> timer_vars" where
  "timer_vars_after this s xs = foldl (\<lambda>s x. snd (timer_advance this s x)) s xs"

text \<open>
  \<^verbatim>\<open>Span._stepper\<close>: the timer wrapper is installed when \<^verbatim>\<open>_hasTimer\<close> is set, the
  noise wrapper when a noise configuration is given. \<open>wrapper\<close> stands for
  \<^verbatim>\<open>SpanNoise.create(noise).wrapper\<close>, whose noise generators come from the
  simplex-noise package.
\<close>

definition Span_stepper ::
  "SpanTimer \<Rightarrow> ('n \<Rightarrow> 'v SpanStepFunction \<Rightarrow> 'v SpanStepFunction)
     \<Rightarrow> 'v SpanStepFunction \<Rightarrow> 'n option \<Rightarrow> 'v SpanStepFunction" where
  "Span_stepper this wrapper stepFunction noise =
    (let stepFunction1 = (if Span_hasTimer this then Span_timerWrapper this stepFunction
                          else stepFunction)
     in case noise of None \<Rightarrow> stepFunction1 | Some n \<Rightarrow> wrapper n stepFunction1)"

section \<open>Results of a call\<close>

text \<open>
  What a JavaScript expression of the library can produce where the typed result
  is expected: the value, \<^verbatim>\<open>undefined\<close> (a read outside an array or of a missing
  key), \<^verbatim>\<open>NaN\<close> (arithmetic on \<^verbatim>\<open>undefined\<close>, a division \<open>0 / 0\<close>, the square root
  of a negative number), or a thrown \<^verbatim>\<open>TypeError\<close> (a call of \<^verbatim>\<open>undefined\<close>, a
  property read on \<^verbatim>\<open>undefined\<close>).
\<close>

datatype 'a outcome = Value 'a | Undefined | NaN | TypeError

text \<open>\<^verbatim>\<open>array[i]\<close> for a number \<open>i\<close> that may be \<^verbatim>\<open>NaN\<close> (\<open>None\<close>).\<close>

definition element :: "'a list \<Rightarrow> int option \<Rightarrow> 'a outcome" where
  "element array i =
    (case i of
       None \<Rightarrow> Undefined
     | Some j \<Rightarrow> if 0 \<le> j \<and> j < int (length array) then Value (array ! nat j) else Undefined)"

section \<open>Array picking\<close>

text \<open>The remainder operator \<^verbatim>\<open>%\<close> on integers: the sign of the dividend, \<^verbatim>\<open>NaN\<close> for a zero divisor.\<close>

definition js_rem :: "int \<Rightarrow> int \<Rightarrow> int option" where
  "js_rem n m = (if m = 0 then None else Some (sgn n * (\<bar>n\<bar> mod \<bar>m\<bar>)))"

text \<open>
  \<^verbatim>\<open>MathUtils.euclideanModulo\<close> and \<^verbatim>\<open>MathUtils.pingpong\<close> of three.js:
  \<^verbatim>\<open>((n % m) + m) % m\<close> and \<^verbatim>\<open>length - Math.abs(euclideanModulo(x, length * 2) - length)\<close>.
\<close>

definition euclideanModulo :: "int \<Rightarrow> int \<Rightarrow> int option" where
  "euclideanModulo n m = (case js_rem n m of None \<Rightarrow> None | Some r \<Rightarrow> js_rem (r + m) m)"

definition pingpong :: "int \<Rightarrow> int \<Rightarrow> int option" where
  "pingpong x length' =
    (case euclideanModulo x (length' * 2) of
       None \<Rightarrow> None
     | Some e \<Rightarrow> Some (length' - \<bar>e - length'\<bar>))"

text \<open>
  \<^verbatim>\<open>arrayPick\<close>. The closure captures the counter \<^verbatim>\<open>step\<close> and ignores its
  argument. \<open>random\<close> is the sequence of numbers that \<^verbatim>\<open>Math.random()\<close> returns to
  the closure; under the \<^verbatim>\<open>"random"\<close> policy, where the source leaves \<^verbatim>\<open>step\<close>
  alone, the counter only tells which of them the call receives. The pick policy is
  a string, and every string other than \<^verbatim>\<open>"random"\<close> and \<^verbatim>\<open>"repeat"\<close> takes the
  \<^verbatim>\<open>default\<close> branch of the \<^verbatim>\<open>switch\<close>.
\<close>

definition arrayPick_picker ::
  "(nat \<Rightarrow> real) \<Rightarrow> 'a list \<Rightarrow> string \<Rightarrow> nat \<Rightarrow> real \<Rightarrow> 'a outcome \<times> nat" where
  "arrayPick_picker random array pick = (\<lambda>step scale.
     if pick = ''random''
       then (element array (Some \<lfloor>random step * real (length array)\<rfloor>), step + 1)
     else if pick = ''repeat''
       then (element array (js_rem (int step) (int (length array))), step + 1)
     else (element array (pingpong (int step) (int (length array) - 1)), step + 1))"

definition arrayPick :: "(nat \<Rightarrow> real) \<Rightarrow> 'a list \<Rightarrow> string \<Rightarrow> 'a outcome SpanStepFunction" where
  "arrayPick random array pick = closure (arrayPick_picker random array pick) 0"

text \<open>
  \<^verbatim>\<open>Span.array\<close>: \<^verbatim>\<open>pick || "random"\<close> takes the default for an absent and for an
  empty pick name. The elements are given as converted values.
\<close>

definition Span_array ::
  "SpanTimer \<Rightarrow> ('n \<Rightarrow> 'a outcome SpanStepFunction \<Rightarrow> 'a outcome SpanStepFunction)
     \<Rightarrow> (nat \<Rightarrow> real) \<Rightarrow> 'a list \<Rightarrow> string option \<Rightarrow> 'n option
     \<Rightarrow> 'a outcome SpanStepFunction" where
  "Span_array this wrapper random array pick noise =
    (let pick' = (case pick of None \<Rightarrow> ''random'' | Some p \<Rightarrow> if p = [] then ''random'' else p)
     in Span_stepper this wrapper (arrayPick random array pick') noise)"

section \<open>Curve interpolation\<close>

text \<open>
  A \<^verbatim>\<open>SpanCurveValue\<close> is a \<^verbatim>\<open>Record<number, number>\<close>: the list of its entries, in
  the order of \<^verbatim>\<open>Object.keys\<close>. An object has each key once.
\<close>

type_synonym SpanCurveValue = "(real \<times> real) list"

text \<open>\<^verbatim>\<open>steps\<close>: the keys, sorted in ascending order; \<^verbatim>\<open>steps[i]\<close> and \<^verbatim>\<open>values[i]\<close>.\<close>

definition curve_steps :: "SpanCurveValue \<Rightarrow> real list" where
  "curve_steps curve = sort (map fst curve)"

definition curve_step :: "SpanCurveValue \<Rightarrow> nat \<Rightarrow> real option" where
  "curve_step curve i =
    (if i < length (curve_steps curve) then Some (curve_steps curve ! i) else None)"

definition curve_value :: "SpanCurveValue \<Rightarrow> nat \<Rightarrow> real option" where
  "curve_value curve i = (case curve_step curve i of None \<Rightarrow> None | Some k \<Rightarrow> map_of curve k)"

text \<open>A number that may be \<^verbatim>\<open>undefined\<close>, returned as it is.\<close>

definition returned :: "real option \<Rightarrow> real outcome" where
  "returned v = (case v of None \<Rightarrow> Undefined | Some y \<Rightarrow> Value y)"

text \<open>
  \<^verbatim>\<open>let i = 0; while (x > steps[i + 1]) i++;\<close> The comparison with \<^verbatim>\<open>undefined\<close>,
  past the end of \<^verbatim>\<open>steps\<close>, is false, so the loop always ends.
\<close>

function seek :: "real list \<Rightarrow> real \<Rightarrow> nat \<Rightarrow> nat" where
  "seek steps x i = (if i + 1 < length steps \<and> steps ! (i + 1) < x then seek steps x (i + 1) else i)"
  by pat_completeness auto
termination
  by (relation "measure (\<lambda>(steps, x, i). length steps - i)") auto

declare seek.simps [simp del]

text \<open>
  The three shapes. With no key at all \<^verbatim>\<open>firstStep\<close> and \<^verbatim>\<open>lastStep\<close> are
  \<^verbatim>\<open>undefined\<close>, both clamping tests are false, and the result is computed from
  \<^verbatim>\<open>undefined\<close> operands.
\<close>

definition smoothInterpolation :: "SpanCurveValue \<Rightarrow> real \<Rightarrow> real outcome" where
  "smoothInterpolation curve x =
    (let steps = curve_steps curve in
     if steps \<noteq> [] \<and> x \<le> hd steps then returned (curve_value curve 0)
     else if steps \<noteq> [] \<and> last steps \<le> x then returned (curve_value curve (length steps - 1))
     else
       let i = seek steps x 0 in
       case (curve_step curve i, curve_step curve (i + 1),
             curve_value curve i, curve_value curve (i + 1)) of
         (Some x0, Some x1, Some y0, Some y1) \<Rightarrow>
           let t = (x - x0) / (x1 - x0);
               t2 = t * t;
               t3 = t2 * t;
               a = 2 * t3 - 3 * t2 + 1;
               b = - 2 * t3 + 3 * t2;
               c = t3 - 2 * t2 + t;
               d = t3 - t2
           in Value (a * y0 + b * y1 + c * (y1 - y0) * (x1 - x0) + d * (y1 - y0) * (x1 - x0))
       | _ \<Rightarrow> NaN)"

definition linearInterpolation :: "SpanCurveValue \<Rightarrow> real \<Rightarrow> real outcome" where
  "linearInterpolation curve x =
    (let steps = curve_steps curve in
     if steps \<noteq> [] \<and> x \<le> hd steps then returned (curve_value curve 0)
     else if steps \<noteq> [] \<and> last steps \<le> x then returned (curve_value curve (length steps - 1))
     else
       let i = seek steps x 0 in
       case (curve_step curve i, curve_step curve (i + 1),
             curve_value curve i, curve_value curve (i + 1)) of
         (Some x0, Some x1, Some y0, Some y1) \<Rightarrow>
           let t = (x - x0) / (x1 - x0) in Value (y0 + (y1 - y0) * t)
       | _ \<Rightarrow> NaN)"

definition staircaseLerp :: "SpanCurveValue \<Rightarrow> real \<Rightarrow> real outcome" where
  "staircaseLerp curve x =
    (let steps = curve_steps curve in
     if steps \<noteq> [] \<and> x \<le> hd steps then returned (curve_value curve 0)
     else if steps \<noteq> [] \<and> last steps \<le> x then returned (curve_value curve (length steps - 1))
     else returned (curve_value curve (seek steps x 0)))"

text \<open>
  \<^verbatim>\<open>curveInterpolation\<close>: the \<^verbatim>\<open>switch\<close> on the shape name returns the staircase
  function in its \<^verbatim>\<open>default\<close> branch.
\<close>

definition curveInterpolation :: "SpanCurveValue \<Rightarrow> string \<Rightarrow> real \<Rightarrow> real outcome" where
  "curveInterpolation curve curveShape =
    (if curveShape = ''smooth'' then smoothInterpolation curve
     else if curveShape = ''linear'' then linearInterpolation curve
     else staircaseLerp curve)"

section \<open>Value types\<close>

text \<open>
  The value of a Span is a \<^verbatim>\<open>Scalar\<close> of this library or a \<^verbatim>\<open>Vector2\<close>,
  \<^verbatim>\<open>Vector3\<close>, \<^verbatim>\<open>Vector4\<close> or \<^verbatim>\<open>Color\<close> of three.js, given here by its
  components (a value and its array or object form denote the same components;
  \<^verbatim>\<open>_convert\<close> is modelled where a configuration method receives its
  arguments). A step function writes its result into the
  Span's own value object and returns that object; the model returns the
  components written. The methods of the three.js classes follow the three.js
  sources: \<^verbatim>\<open>MathUtils.lerp(x, y, t)\<close> is \<^verbatim>\<open>(1 - t) * x + t * y\<close>, and
  \<^verbatim>\<open>lerp\<close>, \<^verbatim>\<open>lerpVectors\<close> and \<^verbatim>\<open>lerpColors\<close> compute
  \<^verbatim>\<open>a + (b - a) * alpha\<close> on each component.
\<close>

datatype Scalar = Scalar real
datatype Vector2 = Vector2 real real
datatype Vector3 = Vector3 real real real
datatype Vector4 = Vector4 real real real real
datatype Color = Color real real real

definition MathUtils_lerp :: "real \<Rightarrow> real \<Rightarrow> real \<Rightarrow> real" where
  "MathUtils_lerp x y t = (1 - t) * x + t * y"

fun Scalar_lerp :: "Scalar \<Rightarrow> Scalar \<Rightarrow> real \<Rightarrow> Scalar" where
  "Scalar_lerp (Scalar this) (Scalar s) alpha = Scalar (MathUtils_lerp this s alpha)"

fun Scalar_lerpScalars :: "Scalar \<Rightarrow> Scalar \<Rightarrow> real \<Rightarrow> Scalar" where
  "Scalar_lerpScalars (Scalar s1) (Scalar s2) alpha = Scalar (MathUtils_lerp s1 s2 alpha)"

fun Vector2_lerp :: "Vector2 \<Rightarrow> Vector2 \<Rightarrow> real \<Rightarrow> Vector2" where
  "Vector2_lerp (Vector2 x y) (Vector2 vx vy) alpha =
     Vector2 (x + (vx - x) * alpha) (y + (vy - y) * alpha)"


fun Vector3_lerp :: "Vector3 \<Rightarrow> Vector3 \<Rightarrow> real \<Rightarrow> Vector3" where
  "Vector3_lerp (Vector3 x y z) (Vector3 vx vy vz) alpha =
     Vector3 (x + (vx - x) * alpha) (y + (vy - y) * alpha) (z + (vz - z) * alpha)"


fun Vector4_lerp :: "Vector4 \<Rightarrow> Vector4 \<Rightarrow> real \<Rightarrow> Vector4" where
  "Vector4_lerp (Vector4 x y z w) (Vector4 vx vy vz vw) alpha =
     Vector4 (x + (vx - x) * alpha) (y + (vy - y) * alpha) (z + (vz - z) * alpha)
       (w + (vw - w) * alpha)"


fun Color_lerp :: "Color \<Rightarrow> Color \<Rightarrow> real \<Rightarrow> Color" where
  "Color_lerp (Color r g b) (Color cr cg cb) alpha =
     Color (r + (cr - r) * alpha) (g + (cg - g) * alpha) (b + (cb - b) * alpha)"


text \<open>\<^verbatim>\<open>Math.round\<close> rounds to the nearest integer, a tie upwards.\<close>

definition Math_round :: "real \<Rightarrow> real" where
  "Math_round x = of_int \<lfloor>x + 1 / 2\<rfloor>"

text \<open>The helper \<^verbatim>\<open>lerpScalar\<close> of the \<^verbatim>\<open>utils\<close> directory. No Span class calls it.\<close>

fun lerpScalar :: "Scalar \<Rightarrow> Scalar \<Rightarrow> real \<Rightarrow> bool \<Rightarrow> Scalar" where
  "lerpScalar (Scalar min') (Scalar max') scale forceInteger =
     (let v = MathUtils_lerp min' max' scale
      in Scalar (if forceInteger then Math_round v else v))"

section \<open>Easing functions\<close>

text \<open>
  An \<^verbatim>\<open>EasingFunction\<close> maps a number to a number. \<^verbatim>\<open>Math.pow\<close> with a literal
  integer exponent is a power, \<^verbatim>\<open>Math.pow(2, y)\<close> is \<open>2 powr y\<close>, and
  \<^verbatim>\<open>Math.sqrt\<close> of a negative number is \<^verbatim>\<open>NaN\<close>. In \<^verbatim>\<open>(value /= 0.5) < 1\<close> and
  \<^verbatim>\<open>(value -= 2) * value\<close> the assignment comes first, so both factors of the
  product are the decremented value; \<^verbatim>\<open>(s *= 1.525)\<close> likewise updates \<open>s\<close> before
  its second use.
\<close>

type_synonym EasingFunction = "real \<Rightarrow> real outcome"

definition Math_sqrt :: "real \<Rightarrow> real outcome" where
  "Math_sqrt x = (if x < 0 then NaN else Value (sqrt x))"

definition linear_easing :: EasingFunction where
  "linear_easing v = Value v"

definition quadIn :: EasingFunction where
  "quadIn v = Value (v ^ 2)"

definition quadOut :: EasingFunction where
  "quadOut v = Value (- ((v - 1) ^ 2 - 1))"

definition quadInOut :: EasingFunction where
  "quadInOut v0 =
    (let v = v0 / 0.5
     in if v < 1 then Value (0.5 * v ^ 2) else Value (- 0.5 * ((v - 2) * (v - 2) - 2)))"

definition cubicIn :: EasingFunction where
  "cubicIn v = Value (v ^ 3)"

definition cubicOut :: EasingFunction where
  "cubicOut v = Value ((v - 1) ^ 3 + 1)"

definition cubicInOut :: EasingFunction where
  "cubicInOut v0 =
    (let v = v0 / 0.5
     in if v < 1 then Value (0.5 * v ^ 3) else Value (0.5 * ((v - 2) ^ 3 + 2)))"

definition quartIn :: EasingFunction where
  "quartIn v = Value (v ^ 4)"

definition quartOut :: EasingFunction where
  "quartOut v = Value (- ((v - 1) ^ 4 - 1))"

definition quartInOut :: EasingFunction where
  "quartInOut v0 =
    (let v = v0 / 0.5
     in if v < 1 then Value (0.5 * v ^ 4) else Value (- 0.5 * ((v - 2) * (v - 2) ^ 3 - 2)))"

definition sineIn :: EasingFunction where
  "sineIn v = Value (- cos (v * (pi / 2)) + 1)"

definition sineOut :: EasingFunction where
  "sineOut v = Value (sin (v * (pi / 2)))"

definition sineInOut :: EasingFunction where
  "sineInOut v = Value (- 0.5 * (cos (pi * v) - 1))"

definition expoIn :: EasingFunction where
  "expoIn v = Value (if v = 0 then 0 else 2 powr (10 * (v - 1)))"

definition expoOut :: EasingFunction where
  "expoOut v = Value (if v = 1 then 1 else - (2 powr (- 10 * v)) + 1)"

definition expoInOut :: EasingFunction where
  "expoInOut v0 =
    (if v0 = 0 then Value 0
     else if v0 = 1 then Value 1
     else
       let v = v0 / 0.5
       in if v < 1 then Value (0.5 * 2 powr (10 * (v - 1)))
          else Value (0.5 * (- (2 powr (- 10 * (v - 1))) + 2)))"

definition circIn :: EasingFunction where
  "circIn v = map_outcome (\<lambda>r. - (r - 1)) (Math_sqrt (1 - v * v))"

definition circOut :: EasingFunction where
  "circOut v = Math_sqrt (1 - (v - 1) ^ 2)"

definition circInOut :: EasingFunction where
  "circInOut v0 =
    (let v = v0 / 0.5
     in if v < 1 then map_outcome (\<lambda>r. - 0.5 * (r - 1)) (Math_sqrt (1 - v * v))
        else map_outcome (\<lambda>r. 0.5 * (r + 1)) (Math_sqrt (1 - (v - 2) * (v - 2))))"

definition backIn :: EasingFunction where
  "backIn v = (let s = 1.70158 in Value (v * v * ((s + 1) * v - s)))"

definition backOut :: EasingFunction where
  "backOut v0 = (let s = 1.70158; v = v0 - 1 in Value (v * v * ((s + 1) * v + s) + 1))"

definition backInOut :: EasingFunction where
  "backInOut v0 =
    (let s = 1.70158;
         v = v0 / 0.5;
         s' = s * 1.525
     in if v < 1 then Value (0.5 * (v * v * ((s' + 1) * v - s')))
        else Value (0.5 * ((v - 2) * (v - 2) * ((s' + 1) * (v - 2) + s') + 2)))"

text \<open>The own entries of the table \<^verbatim>\<open>easings\<close>.\<close>

definition easing_table :: "(string \<times> EasingFunction) list" where
  "easing_table =
    [(''linear'', linear_easing),
     (''quadIn'', quadIn), (''quadOut'', quadOut), (''quadInOut'', quadInOut),
     (''cubicIn'', cubicIn), (''cubicOut'', cubicOut), (''cubicInOut'', cubicInOut),
     (''quartIn'', quartIn), (''quartOut'', quartOut), (''quartInOut'', quartInOut),
     (''sineIn'', sineIn), (''sineOut'', sineOut), (''sineInOut'', sineInOut),
     (''expoIn'', expoIn), (''expoOut'', expoOut), (''expoInOut'', expoInOut),
     (''circIn'', circIn), (''circOut'', circOut), (''circInOut'', circInOut),
     (''backIn'', backIn), (''backOut'', backOut), (''backInOut'', backInOut)]"

text \<open>
  \<^verbatim>\<open>easings\<close> is a plain object, so \<^verbatim>\<open>easings[easing]\<close> also finds the properties
  that every object inherits from \<^verbatim>\<open>Object.prototype\<close>. The step function calls
  what it finds as \<^verbatim>\<open>easing(scale)\<close>, without a receiver: \<^verbatim>\<open>constructor\<close> is
  \<^verbatim>\<open>Object\<close>, which wraps the number, and the wrapped number counts as the number
  in the arithmetic of \<^verbatim>\<open>lerpVectors\<close>, \<^verbatim>\<open>lerpScalars\<close> and \<^verbatim>\<open>lerpColors\<close>; \<^verbatim>\<open>toString\<close> returns the string \<^verbatim>\<open>"[object Undefined]"\<close>,
  which is \<^verbatim>\<open>NaN\<close> as a factor; \<^verbatim>\<open>isPrototypeOf\<close> returns \<^verbatim>\<open>false\<close>, which is \<open>0\<close>
  as a factor; the other inherited methods convert their missing receiver to an
  object and throw, and \<^verbatim>\<open>__proto__\<close> is not a function, so its call throws too.
\<close>

definition Object_prototype :: "string \<Rightarrow> EasingFunction option" where
  "Object_prototype name =
    (if name = ''constructor'' then Some (\<lambda>v. Value v)
     else if name = ''toString'' then Some (\<lambda>v. NaN)
     else if name = ''isPrototypeOf'' then Some (\<lambda>v. Value 0)
     else if name \<in> set [''hasOwnProperty'', ''propertyIsEnumerable'', ''toLocaleString'',
                          ''valueOf'', ''__proto__'', ''__defineGetter__'', ''__defineSetter__'',
                          ''__lookupGetter__'', ''__lookupSetter__'']
       then Some (\<lambda>v. TypeError)
     else None)"

definition easings :: "string \<Rightarrow> EasingFunction option" where
  "easings name =
    (case map_of easing_table name of
       Some easing \<Rightarrow> Some easing
     | None \<Rightarrow> Object_prototype name)"

section \<open>Interpolation between two bounds\<close>

text \<open>The fields \<^verbatim>\<open>_start\<close>, \<^verbatim>\<open>_end\<close> and \<^verbatim>\<open>forceInteger\<close> that \<^verbatim>\<open>_bound\<close> sets.\<close>

record 'v bounds =
  Span_start :: 'v
  Span_end :: 'v
  forceInteger :: bool

definition Span_bound :: "'v \<Rightarrow> 'v \<Rightarrow> bool \<Rightarrow> 'v bounds" where
  "Span_bound start end' forceInteger' =
     \<lparr>Span_start = start, Span_end = end', forceInteger = forceInteger'\<rparr>"

text \<open>
  \<^verbatim>\<open>easing(scale)\<close>, where \<^verbatim>\<open>easing\<close> is \<^verbatim>\<open>undefined\<close> for a name that is neither in
  the table nor inherited: the call throws.
\<close>

definition apply_easing :: "EasingFunction option \<Rightarrow> real \<Rightarrow> real outcome" where
  "apply_easing easing scale = (case easing of None \<Rightarrow> TypeError | Some e \<Rightarrow> e scale)"

text \<open>An interpolation method of the value type, at a blend factor that may not be a number.\<close>

definition blend :: "('b \<Rightarrow> 'b \<Rightarrow> real \<Rightarrow> 'v) \<Rightarrow> 'b \<Rightarrow> 'b \<Rightarrow> real outcome \<Rightarrow> 'v outcome" where
  "blend interp start end' alpha =
    (case alpha of
       Value a \<Rightarrow> Value (interp start end' a)
     | Undefined \<Rightarrow> NaN
     | NaN \<Rightarrow> NaN
     | TypeError \<Rightarrow> TypeError)"


definition ScalarSpan__lerp ::
  "Scalar bounds \<Rightarrow> EasingFunction option \<Rightarrow> Scalar outcome SpanStepFunction" where
  "ScalarSpan__lerp this easing =
     pure_step (\<lambda>scale. blend Scalar_lerpScalars (Span_start this) (Span_end this)
                          (apply_easing easing scale))"


text \<open>
  \<^verbatim>\<open>Span.lerp\<close> and \<^verbatim>\<open>Span.curve\<close>. \<open>lerp'\<close> is the \<^verbatim>\<open>_lerp\<close> method of the
  Span's class. The default parameter value \<^verbatim>\<open>easing = "linear"\<close> applies to an
  absent easing; \<^verbatim>\<open>curveShape || "smooth"\<close> applies to an absent and to an empty
  shape name.
\<close>

definition Span_lerp ::
  "('v bounds \<Rightarrow> EasingFunction option \<Rightarrow> 'v outcome SpanStepFunction) \<Rightarrow> SpanTimer
     \<Rightarrow> ('n \<Rightarrow> 'v outcome SpanStepFunction \<Rightarrow> 'v outcome SpanStepFunction)
     \<Rightarrow> 'v \<Rightarrow> 'v \<Rightarrow> string option \<Rightarrow> bool option \<Rightarrow> 'n option
     \<Rightarrow> 'v outcome SpanStepFunction" where
  "Span_lerp lerp' this wrapper start end' easing forceInteger' noise =
    (let easing' = (case easing of None \<Rightarrow> ''linear'' | Some e \<Rightarrow> e);
         b = Span_bound start end' (case forceInteger' of None \<Rightarrow> False | Some f \<Rightarrow> f)
     in Span_stepper this wrapper (lerp' b (easings easing')) noise)"


section \<open>Gradients\<close>

text \<open>
  A \<^verbatim>\<open>SpanGradient<T>\<close> is a \<^verbatim>\<open>Record<number, T>\<close>: the list of its entries in the
  order of \<^verbatim>\<open>Object.keys\<close>, each key once.
\<close>

type_synonym 'v SpanGradient = "(real \<times> 'v) list"

text \<open>The result of the key normalisation: the table \<^verbatim>\<open>_steps\<close> and the sorted \<^verbatim>\<open>keys\<close>.\<close>

record 'v gradient_table =
  Span_steps :: "real \<rightharpoonup> 'v"
  gradient_keys :: "real list"

text \<open>\<^verbatim>\<open>let min = Infinity\<close>, updated by \<^verbatim>\<open>Math.min(min, key)\<close> for every key.\<close>

definition gradient_min :: "real list \<Rightarrow> number" where
  "gradient_min keys =
     foldl (\<lambda>m key. case m of Infinity \<Rightarrow> Num key | Num r \<Rightarrow> Num (min r key)) Infinity keys"

text \<open>\<^verbatim>\<open>let max = 0\<close>, updated by \<^verbatim>\<open>Math.max(max, key)\<close> for every key.\<close>

definition gradient_max :: "real list \<Rightarrow> real" where
  "gradient_max keys = foldl max 0 keys"

text \<open>
  The key normalisation of \<^verbatim>\<open>Span.gradient\<close>. Without any key nothing is
  computed. When \<^verbatim>\<open>max\<close> equals \<^verbatim>\<open>min\<close> every key equals both, every normalised
  key is the \<^verbatim>\<open>NaN\<close> of \<open>0 / 0\<close>, and there is no table of numeric keys (\<open>None\<close>).
\<close>

definition Span_gradient_table :: "'v SpanGradient \<Rightarrow> 'v gradient_table option" where
  "Span_gradient_table steps =
    (let keys = map fst steps;
         max' = gradient_max keys
     in case gradient_min keys of
          Infinity \<Rightarrow> Some \<lparr>Span_steps = Map.empty, gradient_keys = []\<rparr>
        | Num min' \<Rightarrow>
            if max' = min' then None
            else Some
              \<lparr>Span_steps =
                 foldl (\<lambda>m (key, v). m((key - min') / (max' - min') \<mapsto> v)) Map.empty steps,
               gradient_keys = sort (map (\<lambda>key. (key - min') / (max' - min')) keys)\<rparr>)"

text \<open>\<^verbatim>\<open>gradientFirstLast\<close>: \<^verbatim>\<open>keys[0]\<close> and \<^verbatim>\<open>keys[keys.length - 1]\<close> with their steps.\<close>

definition gradientFirstLast ::
  "real list \<Rightarrow> (real \<rightharpoonup> 'v) \<Rightarrow> real option \<times> 'v option \<times> real option \<times> 'v option" where
  "gradientFirstLast keys steps =
    (if keys = [] then (None, None, None, None)
     else (Some (hd keys), steps (hd keys), Some (last keys), steps (last keys)))"

text \<open>
  \<^verbatim>\<open>gradientSubRangeLerpParams\<close>: the loop has no \<^verbatim>\<open>break\<close>, so the last pair of
  neighbouring keys around \<open>step\<close> is the one kept.
\<close>

definition gradientSubRangeLerpParams ::
  "real list \<Rightarrow> (real \<rightharpoonup> 'v) \<Rightarrow> real \<Rightarrow> 'v option \<times> 'v option \<times> real option" where
  "gradientSubRangeLerpParams keys steps step =
    (case foldl (\<lambda>found i. if keys ! i \<le> step \<and> step \<le> keys ! (i + 1)
                             then Some (keys ! i, keys ! (i + 1)) else found)
            None [0 ..< length keys - 1] of
       None \<Rightarrow> (None, None, None)
     | Some (lowerKey, upperKey) \<Rightarrow>
         (steps lowerKey, steps upperKey,
          if upperKey = lowerKey then None
          else Some ((step - lowerKey) / (upperKey - lowerKey))))"

text \<open>\<^verbatim>\<open>target.copy(v)\<close> reads the components of \<open>v\<close> and throws when \<open>v\<close> is \<^verbatim>\<open>undefined\<close>.\<close>

definition copy :: "'v option \<Rightarrow> 'v outcome" where
  "copy v = (case v of None \<Rightarrow> TypeError | Some v' \<Rightarrow> Value v')"

text \<open>\<^verbatim>\<open>gradientVectorLerp\<close>; \<open>lerp\<close> is the \<^verbatim>\<open>lerp\<close> method of the value type.\<close>

definition gradientVectorLerp ::
  "('v \<Rightarrow> 'v \<Rightarrow> real \<Rightarrow> 'v) \<Rightarrow> (real \<rightharpoonup> 'v) \<Rightarrow> real list \<Rightarrow> real \<Rightarrow> 'v outcome" where
  "gradientVectorLerp lerp steps keys step =
    (case gradientFirstLast keys steps of
       (firstKey, firstStep, lastKey, lastStep) \<Rightarrow>
         if (case firstKey of None \<Rightarrow> False | Some k \<Rightarrow> step \<le> k) then copy firstStep
         else if (case lastKey of None \<Rightarrow> False | Some k \<Rightarrow> k \<le> step) then copy lastStep
         else
           case gradientSubRangeLerpParams keys steps step of
             (lowerVec, upperVec, t) \<Rightarrow>
               (case lowerVec of
                  None \<Rightarrow> TypeError
                | Some l \<Rightarrow>
                    (case upperVec of
                       None \<Rightarrow> TypeError
                     | Some u \<Rightarrow>
                         (case t of None \<Rightarrow> NaN | Some t' \<Rightarrow> Value (lerp l u t')))))"

text \<open>
  \<^verbatim>\<open>Span.gradient\<close> with \<^verbatim>\<open>Span._lerpGradient\<close>. With \<^verbatim>\<open>NaN\<close> keys every
  comparison of the step function is false, no pair of keys is found and
  \<^verbatim>\<open>target.copy(undefined)\<close> throws.
\<close>

definition Span_gradient ::
  "SpanTimer \<Rightarrow> ('n \<Rightarrow> 'v outcome SpanStepFunction \<Rightarrow> 'v outcome SpanStepFunction)
     \<Rightarrow> ('v \<Rightarrow> 'v \<Rightarrow> real \<Rightarrow> 'v) \<Rightarrow> 'v SpanGradient \<Rightarrow> 'n option
     \<Rightarrow> 'v outcome SpanStepFunction" where
  "Span_gradient this wrapper lerp steps noise =
    Span_stepper this wrapper
      (case Span_gradient_table steps of
         None \<Rightarrow> pure_step (\<lambda>step. TypeError)
       | Some g \<Rightarrow> pure_step (gradientVectorLerp lerp (Span_steps g) (gradient_keys g)))
      noise"

section \<open>Rotations\<close>




















section \<open>Configuration from the caller's arguments\<close>


text \<open>
  \<^verbatim>\<open>ScalarSpan._convert\<close>: a \<^verbatim>\<open>ScalarLike\<close> is a number or an object with a
  \<^verbatim>\<open>value\<close>. A missing argument is no \<^verbatim>\<open>Scalar\<close>, and \<^verbatim>\<open>new Scalar(undefined)\<close>
  takes the default \<^verbatim>\<open>value = 0\<close> of the constructor.
\<close>

datatype ScalarLike = number real | with_value real









section \<open>Notions used in the statements\<close>

text \<open>
  The relation between \<^verbatim>\<open>expired\<close> and \<^verbatim>\<open>repeated\<close> that every call of the
  wrapper maintains.
\<close>

definition expiry_inv :: "SpanTimer \<Rightarrow> timer_vars \<Rightarrow> bool" where
  "expiry_inv this s =
     (expired s = (0 < repeated s \<and> ge_number (repeated s) (Span_repeat this)))"

text \<open>The temporal parameters \<^verbatim>\<open>delay=2, repeat=3, alternate=true, speed=1\<close>.\<close>

definition timer_2_3 :: SpanTimer where
  "timer_2_3 = Span_timer \<lparr>speed = Some 1, delay = Some 2, repeat = Some (Num 3),
                           alternate = Some True\<rparr>"

text \<open>The temporal fields of a Span whose configuration names no temporal parameter.\<close>

definition no_timer :: SpanTimer where
  "no_timer = Span_timer \<lparr>speed = None, delay = None, repeat = None, alternate = None\<rparr>"

text \<open>
  Two entries of a curve whose keys are neighbours: no key of the curve lies
  strictly between them.
\<close>

definition neighbours :: "SpanCurveValue \<Rightarrow> real \<times> real \<Rightarrow> real \<times> real \<Rightarrow> bool" where
  "neighbours curve p q =
     (p \<in> set curve \<and> q \<in> set curve \<and> fst p < fst q
      \<and> (\<forall>k\<in>fst ` set curve. \<not> (fst p < k \<and> k < fst q)))"

section \<open>Properties of closures\<close>

lemma call_closure:
  "call (closure body s) x = (fst (body s x), closure body (snd (body s x)))"
  by (simp add: map_prod_def split_beta)

declare closure.sel [simp del]

lemma call_pure_step: "call (pure_step f) x = (f x, pure_step f)"
  by (simp add: pure_step_def call_closure)

lemma calls_pure_step: "calls (pure_step f) xs = map f xs"
  by (induction xs) (simp_all add: call_pure_step)

lemma call_timer_closure:
  "call (closure (timerWrapper_body this) (s, g)) x =
     (fst (call g (fst (timer_advance this s x))),
      closure (timerWrapper_body this)
        (snd (timer_advance this s x), snd (call g (fst (timer_advance this s x)))))"
  by (simp add: call_closure timerWrapper_body_def split_beta)

lemma after_timer_pure:
  "after (closure (timerWrapper_body this) (s, pure_step f)) xs =
     closure (timerWrapper_body this) (timer_vars_after this s xs, pure_step f)"
  by (induction xs arbitrary: s)
     (simp_all add: timer_vars_after_def call_timer_closure call_pure_step)

lemma timer_advance_expired: "expired s \<Longrightarrow> timer_advance this s x = (1, s)"
  by (simp add: timer_advance_def)

lemma timer_vars_after_expired: "expired s \<Longrightarrow> timer_vars_after this s xs = s"
  by (induction xs) (simp_all add: timer_vars_after_def timer_advance_expired)

lemma calls_timer_expired:
  "expired s \<Longrightarrow>
     calls (closure (timerWrapper_body this) (s, pure_step f)) xs = replicate (length xs) (f 1)"
  by (induction xs)
     (simp_all add: call_timer_closure call_pure_step timer_advance_expired)

text \<open>
  The cycle count moves by at most one per call, and the call that moves it sets
  \<^verbatim>\<open>expired\<close> exactly when the new count has reached \<^verbatim>\<open>_repeat\<close>.
\<close>

lemma timer_advance_count:
  assumes "\<not> expired s"
  shows "(repeated (snd (timer_advance this s x)) = repeated s
            \<and> \<not> expired (snd (timer_advance this s x)))
       \<or> (repeated (snd (timer_advance this s x)) = repeated s + 1
            \<and> expired (snd (timer_advance this s x))
                = ge_number (repeated s + 1) (Span_repeat this))"
  using assms by (simp add: timer_advance_def Let_def)

lemma expiry_inv_advance:
  assumes "expiry_inv this s"
  shows "expiry_inv this (snd (timer_advance this s x))"
proof (cases "expired s")
  case True
  with assms show ?thesis by (simp add: timer_advance_expired)
next
  case False
  from timer_advance_count [OF False, of this x] show ?thesis
  proof
    assume "repeated (snd (timer_advance this s x)) = repeated s
              \<and> \<not> expired (snd (timer_advance this s x))"
    with assms False show ?thesis by (simp add: expiry_inv_def)
  next
    assume "repeated (snd (timer_advance this s x)) = repeated s + 1
              \<and> expired (snd (timer_advance this s x))
                  = ge_number (repeated s + 1) (Span_repeat this)"
    then show ?thesis by (simp add: expiry_inv_def)
  qed
qed

lemma expiry_inv_after:
  "expiry_inv this s \<Longrightarrow> expiry_inv this (timer_vars_after this s xs)"
proof (induction xs arbitrary: s)
  case Nil
  then show ?case by (simp add: timer_vars_after_def)
next
  case (Cons x xs)
  from Cons.IH [OF expiry_inv_advance [OF Cons.prems, of x]]
  show ?case by (simp add: timer_vars_after_def)
qed

lemma expiry_inv_init: "expiry_inv this timer_init"
  by (simp add: expiry_inv_def timer_init_def)

lemma calls_append: "calls f (xs @ ys) = calls f xs @ calls (after f xs) ys"
  by (induction xs arbitrary: f) simp_all

lemma timer_2_3_fields:
  "Span_hasTimer timer_2_3" "Span_speed timer_2_3 = 1" "Span_delay timer_2_3 = 2"
  "Span_repeat timer_2_3 = Num 3" "Span_alternate timer_2_3"
  by (simp_all add: timer_2_3_def Span_timer_def)

lemma timer_2_3_five_calls:
  "calls (Span_timerWrapper timer_2_3 (pure_step f)) [1, 1, 1, 1, 1] = [f 0, f 1, f 0, f 1, f 1]"
  "expired (timer_vars_after timer_2_3 timer_init [1, 1, 1, 1, 1])"
  by (simp_all add: Span_timerWrapper_def call_timer_closure call_pure_step timer_vars_after_def
        timer_advance_def timer_init_def timer_2_3_fields Let_def)

section \<open>The temporal remapper\<close>

text \<open>
  C1, as the code has it. With \<^verbatim>\<open>delay=2, repeat=3, alternate=true, speed=1\<close> around
  any base stepper \<open>f\<close> and unit steps: the first call returns \<open>f 0\<close>; on the second
  call the timer reaches the delay (\<^verbatim>\<open>timer < _delay\<close> is false), the delay window
  ends and the call returns \<open>f 1\<close>; the third call completes the first cycle, an odd
  one, and returns the reversed progress \<open>f (1 - 1)\<close>; the fourth returns \<open>f 1\<close>;
  the fifth completes the third cycle, which expires the wrapper, and every later
  call returns \<open>f 1\<close>. Whenever a call completes an odd cycle without expiring, the
  progress passed to \<open>f\<close> is \<open>1 - step\<close>.
\<close>

theorem timerWrapper_delay_repeat_alternate:
  "calls (Span_timerWrapper timer_2_3 (pure_step f)) (replicate (5 + n) 1)
     = [f 0, f 1, f 0, f 1, f 1] @ replicate n (f 1)
   \<and> (\<not> expired s \<and> \<not> firstCycle s \<and> 1 \<le> timer s + \<bar>x\<bar> \<and> odd (repeated s + 1)
          \<and> repeated s + 1 < 3
        \<longrightarrow> fst (timer_advance timer_2_3 s x) = 1 - x)"
proof
  have split: "replicate (5 + n) (1::real) = [1, 1, 1, 1, 1] @ replicate n 1"
    by (simp add: replicate_add numeral_eq_Suc)
  have frozen: "calls (after (Span_timerWrapper timer_2_3 (pure_step f)) [1, 1, 1, 1, 1])
                  (replicate n 1) = replicate n (f 1)"
    unfolding Span_timerWrapper_def after_timer_pure
    using calls_timer_expired [OF timer_2_3_five_calls(2), of timer_2_3 f "replicate n 1"]
    by simp
  show "calls (Span_timerWrapper timer_2_3 (pure_step f)) (replicate (5 + n) 1)
          = [f 0, f 1, f 0, f 1, f 1] @ replicate n (f 1)"
    unfolding split calls_append timer_2_3_five_calls(1) frozen ..
next
  show "\<not> expired s \<and> \<not> firstCycle s \<and> 1 \<le> timer s + \<bar>x\<bar> \<and> odd (repeated s + 1)
          \<and> repeated s + 1 < 3
        \<longrightarrow> fst (timer_advance timer_2_3 s x) = 1 - x"
    by (simp add: timer_advance_def timer_2_3_fields Let_def)
qed

theorem timerWrapper_delay_repeat_alternate_witness:
  "calls (Span_timerWrapper timer_2_3 (pure_step id)) (replicate (5 + 2) 1)
     = [0, 1, 0, 1, 1, 1, 1]
   \<and> \<not> expired (timer_init\<lparr>firstCycle := False\<rparr>)
   \<and> \<not> firstCycle (timer_init\<lparr>firstCycle := False\<rparr>)
   \<and> (1::real) \<le> timer (timer_init\<lparr>firstCycle := False\<rparr>) + \<bar>1\<bar>
   \<and> odd (repeated (timer_init\<lparr>firstCycle := False\<rparr>) + 1)
   \<and> repeated (timer_init\<lparr>firstCycle := False\<rparr>) + 1 < 3
   \<and> fst (timer_advance timer_2_3 (timer_init\<lparr>firstCycle := False\<rparr>) 1) = 1 - 1"
  using timerWrapper_delay_repeat_alternate
          [of id 2 "timer_init\<lparr>firstCycle := False\<rparr>" 1]
  by (simp add: timer_init_def numeral_2_eq_2)

text \<open>
  C1, as the specification words it, fails: the second unit step does not return
  \<open>f 0\<close>. With the identity as base stepper the first two calls return \<open>0\<close> and \<open>1\<close>.
\<close>

theorem timerWrapper_second_step_counterexample:
  "calls (Span_timerWrapper timer_2_3 (pure_step id)) [1, 1] \<noteq> [id 0, id 0]"
  by (simp add: Span_timerWrapper_def call_timer_closure call_pure_step
        timer_advance_def timer_init_def timer_2_3_fields Let_def)

text \<open>
  C6. After any sequence of calls of a timer-wrapped stepper, the wrapper is
  expired exactly when a cycle has been completed and the cycle count has reached
  \<^verbatim>\<open>_repeat\<close>. Once it is expired, a call returns the base stepper's value at \<open>1\<close>
  and leaves the timer variables as they are, so every later call does the same;
  with \<^verbatim>\<open>repeat = 0\<close> the first completed cycle expires it.
\<close>

theorem timerWrapper_expiry_terminal:
  "(expired (timer_vars_after this timer_init xs)
      = (0 < repeated (timer_vars_after this timer_init xs)
         \<and> ge_number (repeated (timer_vars_after this timer_init xs)) (Span_repeat this)))
   \<and> (expired s \<longrightarrow>
        call (closure (timerWrapper_body this) (s, g)) x
          = (fst (call g 1), closure (timerWrapper_body this) (s, snd (call g 1))))
   \<and> (expired (timer_vars_after this timer_init xs) \<longrightarrow>
        calls (after (Span_timerWrapper this (pure_step f)) xs) ys = replicate (length ys) (f 1)
        \<and> timer_vars_after this timer_init (xs @ ys) = timer_vars_after this timer_init xs)
   \<and> (Span_repeat this = Num 0 \<and> 0 < repeated (timer_vars_after this timer_init xs)
        \<longrightarrow> expired (timer_vars_after this timer_init xs))"
proof -
  let ?s = "timer_vars_after this timer_init xs"
  have inv: "expiry_inv this ?s"
    by (rule expiry_inv_after [OF expiry_inv_init])
  then have a: "expired ?s = (0 < repeated ?s \<and> ge_number (repeated ?s) (Span_repeat this))"
    by (simp add: expiry_inv_def)
  have b: "expired s \<longrightarrow>
        call (closure (timerWrapper_body this) (s, g)) x
          = (fst (call g 1), closure (timerWrapper_body this) (s, snd (call g 1)))"
    by (simp add: call_timer_closure timer_advance_expired)
  have c: "expired ?s \<longrightarrow>
        calls (after (Span_timerWrapper this (pure_step f)) xs) ys = replicate (length ys) (f 1)
        \<and> timer_vars_after this timer_init (xs @ ys) = ?s"
  proof
    assume e: "expired ?s"
    have "timer_vars_after this timer_init (xs @ ys) = timer_vars_after this ?s ys"
      by (simp add: timer_vars_after_def)
    with e show "calls (after (Span_timerWrapper this (pure_step f)) xs) ys
                   = replicate (length ys) (f 1)
                 \<and> timer_vars_after this timer_init (xs @ ys) = ?s"
      by (simp add: Span_timerWrapper_def after_timer_pure calls_timer_expired
            timer_vars_after_expired)
  qed
  have d: "Span_repeat this = Num 0 \<and> 0 < repeated ?s \<longrightarrow> expired ?s"
    using a by simp
  from a b c d show ?thesis by blast
qed

theorem timerWrapper_expiry_terminal_witness:
  "expired (timer_vars_after
      (Span_timer \<lparr>speed = None, delay = None, repeat = Some (Num 0), alternate = None\<rparr>)
      timer_init [1])
   \<and> Span_repeat
        (Span_timer \<lparr>speed = None, delay = None, repeat = Some (Num 0), alternate = None\<rparr>)
       = Num 0
   \<and> 0 < repeated (timer_vars_after
      (Span_timer \<lparr>speed = None, delay = None, repeat = Some (Num 0), alternate = None\<rparr>)
      timer_init [1])
   \<and> calls (after (Span_timerWrapper
      (Span_timer \<lparr>speed = None, delay = None, repeat = Some (Num 0), alternate = None\<rparr>)
      (pure_step id)) [1]) [1 / 4, 1 / 2] = [1, 1]
   \<and> call (closure (timerWrapper_body
      (Span_timer \<lparr>speed = None, delay = None, repeat = Some (Num 0), alternate = None\<rparr>))
        (timer_init\<lparr>expired := True\<rparr>, pure_step id)) (1 / 4)
       = (1, closure (timerWrapper_body
      (Span_timer \<lparr>speed = None, delay = None, repeat = Some (Num 0), alternate = None\<rparr>))
        (timer_init\<lparr>expired := True\<rparr>, pure_step id))"
  using timerWrapper_expiry_terminal
    [of "Span_timer \<lparr>speed = None, delay = None, repeat = Some (Num 0), alternate = None\<rparr>"
        "[1]" "timer_init\<lparr>expired := True\<rparr>" "pure_step id" "1 / 4" id "[1 / 4, 1 / 2]"]
  by (simp add: timer_vars_after_def timer_advance_def timer_init_def Span_timer_def Let_def
        call_pure_step)

section \<open>Installing the wrappers\<close>

text \<open>
  C10. When every temporal parameter is absent or at its default (speed 1, delay 0,
  repeat Infinity, alternate false) and no noise is configured, \<^verbatim>\<open>_hasTimer\<close> is
  false and the \<^verbatim>\<open>step\<close> function that \<^verbatim>\<open>_stepper\<close> installs is the base mode
  stepper itself: no closure with timer variables stands between the caller's
  argument and the base stepper.
\<close>

theorem default_temporal_parameters_install_no_wrapper:
  assumes "speed params = None \<or> speed params = Some 1"
    and "delay params = None \<or> delay params = Some 0"
    and "repeat params = None \<or> repeat params = Some Infinity"
    and "alternate params = None \<or> alternate params = Some False"
  shows "\<not> Span_hasTimer (Span_timer params)
       \<and> Span_stepper (Span_timer params) wrapper stepFunction None = stepFunction"
  using assms by (auto simp add: Span_timer_def Span_stepper_def)

theorem default_temporal_parameters_install_no_wrapper_witness:
  "\<not> Span_hasTimer
       (Span_timer \<lparr>speed = None, delay = Some 0, repeat = Some Infinity, alternate = None\<rparr>)
   \<and> Span_stepper
       (Span_timer \<lparr>speed = None, delay = Some 0, repeat = Some Infinity, alternate = None\<rparr>)
       (\<lambda>(n::unit) f. f) (pure_step (id :: real \<Rightarrow> real)) None = pure_step id"
  using default_temporal_parameters_install_no_wrapper
    [of "\<lparr>speed = None, delay = Some 0, repeat = Some Infinity, alternate = None\<rparr>"
        "\<lambda>(n::unit) f. f" "pure_step (id :: real \<Rightarrow> real)"]
  by simp

section \<open>Array picking\<close>

lemma no_timer_fields: "\<not> Span_hasTimer no_timer"
  by (simp add: no_timer_def Span_timer_def)

lemma Span_stepper_no_timer: "Span_stepper no_timer wrapper stepFunction None = stepFunction"
  by (simp add: Span_stepper_def no_timer_fields)

lemma calls_arrayPick_from:
  "calls (closure (arrayPick_picker random array pick) k) xs
     = map (\<lambda>i. fst (arrayPick_picker random array pick i 0)) [k ..< k + length xs]"
proof (induction xs arbitrary: k)
  case Nil
  show ?case by simp
next
  case (Cons x xs)
  have same: "fst (arrayPick_picker random array pick k x) = fst (arrayPick_picker random array pick k 0)"
    by (simp add: arrayPick_picker_def)
  have next_k: "snd (arrayPick_picker random array pick k x) = Suc k"
    by (simp add: arrayPick_picker_def)
  have "[k ..< k + length (x # xs)] = k # [Suc k ..< Suc k + length xs]"
    by (simp add: upt_rec)
  then show ?case
    by (simp add: call_closure same next_k Cons.IH)
qed

lemma js_rem_nat: "0 < m \<Longrightarrow> js_rem (int k) (int m) = Some (int (k mod m))"
  by (cases "k = 0") (simp_all add: js_rem_def zmod_int)

lemma euclideanModulo_nat:
  assumes "0 < m"
  shows "euclideanModulo (int k) (int m) = Some (int (k mod m))"
proof -
  have "js_rem (int (k mod m) + int m) (int m) = js_rem (int (k mod m + m)) (int m)"
    by simp
  also have "\<dots> = Some (int ((k mod m + m) mod m))"
    by (rule js_rem_nat [OF assms])
  also have "(k mod m + m) mod m = k mod m"
    by simp
  finally show ?thesis
    by (simp add: euclideanModulo_def js_rem_nat [OF assms])
qed

lemma pingpong_three:
  "element [a, b, c] (pingpong (int k) (int (length [a, b, c]) - 1)) = Value ([a, b, c, b] ! (k mod 4))"
proof -
  have e: "euclideanModulo (int k) 4 = Some (int (k mod 4))"
    using euclideanModulo_nat [of 4 k] by simp
  have "k mod 4 = 0 \<or> k mod 4 = 1 \<or> k mod 4 = 2 \<or> k mod 4 = 3"
    by presburger
  then show ?thesis
    by (elim disjE) (simp_all add: pingpong_def e element_def)
qed

lemma repeat_pick:
  "array \<noteq> [] \<Longrightarrow>
     element array (js_rem (int k) (int (length array))) = Value (array ! (k mod length array))"
  by (simp add: js_rem_nat element_def)


text \<open>
  C7. For an \<^verbatim>\<open>array\<close> configuration over \<open>[a, b, c]\<close> with pick policy
  \<^verbatim>\<open>alternate\<close>, the successive calls return \<open>a, b, c, b, a, b, c, \<dots>\<close>: call number
  \<open>k\<close> returns the element of \<open>[a, b, c, b]\<close> at \<open>k mod 4\<close>, whatever progress values
  are passed. With pick policy \<^verbatim>\<open>repeat\<close> over a non-empty array, call number \<open>k\<close>
  returns the element at index \<open>k mod n\<close>.
\<close>

theorem array_alternate_bounces_repeat_wraps:
  "calls (Span_array no_timer wrapper random [a, b, c] (Some ''alternate'') None) xs
     = map (\<lambda>k. Value ([a, b, c, b] ! (k mod 4))) [0 ..< length xs]
   \<and> (array \<noteq> [] \<longrightarrow>
        calls (Span_array no_timer wrapper random array (Some ''repeat'') None) xs
          = map (\<lambda>k. Value (array ! (k mod length array))) [0 ..< length xs])"
proof
  have "calls (arrayPick random [a, b, c] ''alternate'') xs
          = map (\<lambda>k. Value ([a, b, c, b] ! (k mod 4))) [0 ..< length xs]"
    unfolding arrayPick_def calls_arrayPick_from
    by (simp add: arrayPick_picker_def pingpong_three del: length_Cons list.size)
  then show "calls (Span_array no_timer wrapper random [a, b, c] (Some ''alternate'') None) xs
     = map (\<lambda>k. Value ([a, b, c, b] ! (k mod 4))) [0 ..< length xs]"
    by (simp add: Span_array_def Span_stepper_no_timer)
next
  show "array \<noteq> [] \<longrightarrow>
        calls (Span_array no_timer wrapper random array (Some ''repeat'') None) xs
          = map (\<lambda>k. Value (array ! (k mod length array))) [0 ..< length xs]"
  proof
    assume ne: "array \<noteq> []"
    have "calls (arrayPick random array ''repeat'') xs
            = map (\<lambda>k. Value (array ! (k mod length array))) [0 ..< length xs]"
      unfolding arrayPick_def calls_arrayPick_from
      by (simp add: arrayPick_picker_def repeat_pick [OF ne])
    then show "calls (Span_array no_timer wrapper random array (Some ''repeat'') None) xs
          = map (\<lambda>k. Value (array ! (k mod length array))) [0 ..< length xs]"
      by (simp add: Span_array_def Span_stepper_no_timer)
  qed
qed

theorem array_alternate_bounces_repeat_wraps_witness:
  "calls (Span_array no_timer (\<lambda>(n::unit) f. f) (\<lambda>k. 0) [10, 20, 30 :: nat]
            (Some ''alternate'') None) [0, 1, 0, 1 / 2, 1 / 4, 3, 0]
     = [Value 10, Value 20, Value 30, Value 20, Value 10, Value 20, Value 30]
   \<and> [7, 8 :: nat] \<noteq> []
   \<and> calls (Span_array no_timer (\<lambda>(n::unit) f. f) (\<lambda>k. 0) [7, 8 :: nat]
            (Some ''repeat'') None) [0, 1, 0, 1 / 2, 1 / 4, 3, 0]
     = [Value 7, Value 8, Value 7, Value 8, Value 7, Value 8, Value 7]"
  using array_alternate_bounces_repeat_wraps
    [of "\<lambda>(n::unit) f. f" "\<lambda>k. 0" "10::nat" 20 30 "[0, 1, 0, 1 / 2, 1 / 4, 3, 0]" "[7, 8]"]
  by (simp add: upt_rec mod_Suc del: calls.simps)

section \<open>Curve interpolation\<close>

lemma nth_le_strict:
  assumes "sorted_wrt (<) (steps :: real list)" "i \<le> j" "j < length steps"
  shows "steps ! i \<le> steps ! j"
proof (cases "i = j")
  case True
  then show ?thesis by simp
next
  case False
  with assms(2) have "i < j" by simp
  from sorted_wrt_nth_less [OF assms(1) this assms(3)] show ?thesis by simp
qed

lemma seek_finds:
  assumes "sorted_wrt (<) steps" "i + 1 < length steps" "steps ! i < x" "x \<le> steps ! (i + 1)"
  shows "j \<le> i \<Longrightarrow> seek steps x j = i"
proof (induction "i - j" arbitrary: j)
  case 0
  then have "j = i" by simp
  with assms show ?case by (subst seek.simps) simp
next
  case (Suc d)
  then have lt: "j < i" and d: "d = i - (j + 1)" by simp_all
  from lt assms(2) have "steps ! (j + 1) \<le> steps ! i"
    by (intro nth_le_strict [OF assms(1)]) simp_all
  with assms(3) have "steps ! (j + 1) < x" by simp
  moreover from lt assms(2) have "j + 1 < length steps" by simp
  ultimately have "seek steps x j = seek steps x (j + 1)" by (subst seek.simps) simp
  also have "\<dots> = i" using Suc.hyps(1) [OF d] lt by simp
  finally show ?case .
qed

lemma curve_steps_strict:
  "distinct (map fst curve) \<Longrightarrow> sorted_wrt (<) (curve_steps curve)"
  by (simp add: curve_steps_def strict_sorted_iff)

lemma curve_steps_set: "set (curve_steps curve) = fst ` set curve"
  by (simp add: curve_steps_def)

lemma curve_steps_length: "length (curve_steps curve) = length curve"
  by (simp add: curve_steps_def)

lemma curve_step_nth:
  "i < length (curve_steps curve) \<Longrightarrow> curve_step curve i = Some (curve_steps curve ! i)"
  by (simp add: curve_step_def)

lemma curve_value_nth:
  assumes "distinct (map fst curve)" "i < length (curve_steps curve)"
    "(curve_steps curve ! i, y) \<in> set curve"
  shows "curve_value curve i = Some y"
  using assms by (simp add: curve_value_def curve_step_def)

text \<open>Strictly between two neighbouring keys.\<close>

lemma seek_inside:
  assumes st: "sorted_wrt (<) steps" and i: "i + 1 < length steps"
    and lo: "steps ! i < x" and hi: "x < steps ! (i + 1)"
  shows "\<not> x \<le> hd steps" "\<not> last steps \<le> x" "seek steps x 0 = i"
proof -
  from i have ne: "steps \<noteq> []" by auto
  have "steps ! 0 \<le> steps ! i"
    using i by (intro nth_le_strict [OF st]) simp_all
  with lo ne show "\<not> x \<le> hd steps" by (simp add: hd_conv_nth)
  have "steps ! (i + 1) \<le> steps ! (length steps - 1)"
    using i by (intro nth_le_strict [OF st]) simp_all
  with hi ne show "\<not> last steps \<le> x" by (simp add: last_conv_nth)
  from seek_finds [OF st i lo] hi show "seek steps x 0 = i" by simp
qed

text \<open>At a key that is neither the first nor the last.\<close>

lemma seek_at_inner_key:
  assumes st: "sorted_wrt (<) steps" and i: "0 < i" "i + 1 < length steps"
  shows "\<not> steps ! i \<le> hd steps" "\<not> last steps \<le> steps ! i" "seek steps (steps ! i) 0 = i - 1"
proof -
  from i have ne: "steps \<noteq> []" by auto
  have "steps ! 0 < steps ! i"
    using sorted_wrt_nth_less [OF st, of 0 i] i by simp
  with ne show "\<not> steps ! i \<le> hd steps" by (simp add: hd_conv_nth)
  have "steps ! i < steps ! (length steps - 1)"
    using sorted_wrt_nth_less [OF st, of i "length steps - 1"] i by simp
  with ne show "\<not> last steps \<le> steps ! i" by (simp add: last_conv_nth)
  have "steps ! (i - 1) < steps ! i"
    using sorted_wrt_nth_less [OF st, of "i - 1" i] i by simp
  with seek_finds [OF st, of "i - 1" "steps ! i" 0] i
  show "seek steps (steps ! i) 0 = i - 1" by simp
qed

text \<open>Neighbouring keys have neighbouring positions in the sorted list.\<close>

lemma neighbours_nth:
  assumes st: "sorted_wrt (<) (steps :: real list)" and k0: "k0 \<in> set steps" and k1: "k1 \<in> set steps"
    and lt: "k0 < k1" and gap: "\<forall>k\<in>set steps. \<not> (k0 < k \<and> k < k1)"
  shows "\<exists>i. i + 1 < length steps \<and> steps ! i = k0 \<and> steps ! (i + 1) = k1"
proof -
  from k0 obtain i where i: "i < length steps" "steps ! i = k0"
    by (auto simp: in_set_conv_nth)
  from k1 obtain j where j: "j < length steps" "steps ! j = k1"
    by (auto simp: in_set_conv_nth)
  have ij: "i < j"
  proof (rule ccontr)
    assume "\<not> i < j"
    then have "j \<le> i" by simp
    then have "steps ! j \<le> steps ! i"
      using i by (intro nth_le_strict [OF st]) simp_all
    with i j lt show False by simp
  qed
  have "j = i + 1"
  proof (rule ccontr)
    assume "j \<noteq> i + 1"
    with ij have m: "i < i + 1" "i + 1 < j" by simp_all
    with j have "steps ! i < steps ! (i + 1)" "steps ! (i + 1) < steps ! j"
      using sorted_wrt_nth_less [OF st, of i "i + 1"] sorted_wrt_nth_less [OF st, of "i + 1" j]
      by simp_all
    moreover from m j have "steps ! (i + 1) \<in> set steps" by simp
    ultimately show False using gap i j by auto
  qed
  with i j show ?thesis by auto
qed


text \<open>The clamping branches.\<close>

lemma curve_first_branch:
  assumes d: "distinct (map fst curve)" and n: "0 < length curve"
    and x: "x \<le> curve_steps curve ! 0" and v: "(curve_steps curve ! 0, y) \<in> set curve"
  shows "linearInterpolation curve x = Value y" "smoothInterpolation curve x = Value y"
    "staircaseLerp curve x = Value y"
proof -
  from n have ne: "curve_steps curve \<noteq> []"
    by (simp add: curve_steps_length flip: length_greater_0_conv)
  from n have "curve_value curve 0 = Some y"
    by (intro curve_value_nth [OF d _ v]) (simp add: curve_steps_length)
  with ne x show "linearInterpolation curve x = Value y" "smoothInterpolation curve x = Value y"
    "staircaseLerp curve x = Value y"
    by (simp_all add: linearInterpolation_def smoothInterpolation_def staircaseLerp_def
          returned_def hd_conv_nth Let_def)
qed

lemma curve_last_branch:
  assumes d: "distinct (map fst curve)" and n: "0 < length curve"
    and x: "curve_steps curve ! (length curve - 1) \<le> x"
    and v: "(curve_steps curve ! (length curve - 1), y) \<in> set curve"
  shows "linearInterpolation curve x = Value y \<and> smoothInterpolation curve x = Value y
    \<and> staircaseLerp curve x = Value y"
proof -
  from n have ne: "curve_steps curve \<noteq> []"
    by (simp add: curve_steps_length flip: length_greater_0_conv)
  show ?thesis
  proof (cases "x \<le> hd (curve_steps curve)")
    case True
    have "curve_steps curve ! 0 \<le> curve_steps curve ! (length curve - 1)"
      using n
      by (intro nth_le_strict [OF curve_steps_strict [OF d]]) (simp_all add: curve_steps_length)
    with True x ne have eq: "curve_steps curve ! 0 = curve_steps curve ! (length curve - 1)"
      and x0: "x \<le> curve_steps curve ! 0"
      by (simp_all add: hd_conv_nth)
    from curve_first_branch [OF d n x0] v eq show ?thesis by simp
  next
    case False
    from n have "curve_value curve (length curve - 1) = Some y"
      by (intro curve_value_nth [OF d _ v]) (simp add: curve_steps_length)
    with ne x False show ?thesis
      by (simp add: linearInterpolation_def smoothInterpolation_def staircaseLerp_def
            returned_def last_conv_nth curve_steps_length Let_def)
  qed
qed

text \<open>Right of a key, up to the next key, below the last key: the scan stops at the segment.\<close>

lemma curve_segment:
  assumes d: "distinct (map fst curve)" and i: "i + 1 < length curve"
    and lo: "curve_steps curve ! i < x" and hi: "x \<le> curve_steps curve ! (i + 1)"
    and below: "x < curve_steps curve ! (length curve - 1)"
    and v0: "(curve_steps curve ! i, y0) \<in> set curve"
    and v1: "(curve_steps curve ! (i + 1), y1) \<in> set curve"
  shows "linearInterpolation curve x
           = Value (y0 + (y1 - y0) * ((x - curve_steps curve ! i)
                                      / (curve_steps curve ! (i + 1) - curve_steps curve ! i)))"
    and "staircaseLerp curve x = Value y0"
    and "x = curve_steps curve ! (i + 1) \<Longrightarrow> smoothInterpolation curve x = Value y1"
proof -
  let ?steps = "curve_steps curve"
  have st: "sorted_wrt (<) ?steps" by (rule curve_steps_strict [OF d])
  from i have il: "i + 1 < length ?steps" by (simp add: curve_steps_length)
  then have ne: "?steps \<noteq> []" by auto
  have "?steps ! 0 \<le> ?steps ! i"
    using il by (intro nth_le_strict [OF st]) simp_all
  with lo ne have nf: "\<not> x \<le> hd ?steps" by (simp add: hd_conv_nth)
  from below ne have nl: "\<not> last ?steps \<le> x" by (simp add: last_conv_nth curve_steps_length)
  from seek_finds [OF st il lo hi] have sk: "seek ?steps x 0 = i" by simp
  from il have s0: "curve_step curve i = Some (?steps ! i)"
    and s1: "curve_step curve (i + 1) = Some (?steps ! (i + 1))"
    by (simp_all add: curve_step_def)
  from il have c0: "curve_value curve i = Some y0"
    by (intro curve_value_nth [OF d _ v0]) simp
  from il have c1: "curve_value curve (i + 1) = Some y1"
    by (intro curve_value_nth [OF d _ v1]) simp
  show "linearInterpolation curve x
           = Value (y0 + (y1 - y0) * ((x - ?steps ! i) / (?steps ! (i + 1) - ?steps ! i)))"
    using nf nl sk s0 s1 c0 c1 by (simp add: linearInterpolation_def Let_def)
  show "staircaseLerp curve x = Value y0"
    using nf nl sk c0 by (simp add: staircaseLerp_def returned_def Let_def)
  show "smoothInterpolation curve x = Value y1" if "x = ?steps ! (i + 1)"
  proof -
    from lo that have "(x - ?steps ! i) / (?steps ! (i + 1) - ?steps ! i) = 1" by simp
    then show ?thesis
      using nf nl sk s0 s1 c0 c1 by (simp add: smoothInterpolation_def Let_def)
  qed
qed


lemma key_position:
  assumes "(k, y) \<in> set curve"
  shows "\<exists>j<length curve. curve_steps curve ! j = k"
proof -
  from assms have "k \<in> set (curve_steps curve)"
    by (force simp: curve_steps_set)
  then show ?thesis
    by (auto simp: in_set_conv_nth curve_steps_length)
qed

lemma value_at_position:
  assumes "j < length curve"
  shows "\<exists>y. (curve_steps curve ! j, y) \<in> set curve"
proof -
  from assms have "curve_steps curve ! j \<in> set (curve_steps curve)"
    by (simp add: curve_steps_length)
  then show ?thesis by (auto simp: curve_steps_set)
qed

lemma neighbours_position:
  assumes d: "distinct (map fst curve)" and nb: "neighbours curve (k0, y0) (k1, y1)"
  shows "\<exists>i. i + 1 < length curve \<and> curve_steps curve ! i = k0 \<and> curve_steps curve ! (i + 1) = k1"
proof -
  from nb have "k0 \<in> set (curve_steps curve)" "k1 \<in> set (curve_steps curve)" "k0 < k1"
    "\<forall>k\<in>set (curve_steps curve). \<not> (k0 < k \<and> k < k1)"
    by (force simp: neighbours_def curve_steps_set)+
  from neighbours_nth [OF curve_steps_strict [OF d] this] show ?thesis
    by (simp add: curve_steps_length)
qed

lemma interpolation_at_key:
  assumes d: "distinct (map fst curve)" and v: "(k, y) \<in> set curve"
  shows "linearInterpolation curve k = Value y \<and> smoothInterpolation curve k = Value y"
proof -
  let ?steps = "curve_steps curve"
  have st: "sorted_wrt (<) ?steps" by (rule curve_steps_strict [OF d])
  from key_position [OF v] obtain j where j: "j < length curve" "?steps ! j = k" by auto
  then have n: "0 < length curve" by linarith
  consider "j = 0" | "j = length curve - 1" | "0 < j" "j + 1 < length curve"
    using j by linarith
  then show ?thesis
  proof cases
    case 1
    with j v curve_first_branch [OF d n, of k y] show ?thesis by simp
  next
    case 2
    with j v curve_last_branch [OF d n, of k y] show ?thesis by simp
  next
    case 3
    then have i: "j - 1 + 1 < length curve" and jj: "j - 1 + 1 = j" by simp_all
    from 3 have "j - 1 < length curve" by linarith
    from value_at_position [OF this] obtain y' where
      y': "(?steps ! (j - 1), y') \<in> set curve" by auto
    have lo: "?steps ! (j - 1) < k"
      using sorted_wrt_nth_less [OF st, of "j - 1" j] 3 j by (simp add: curve_steps_length)
    have below: "k < ?steps ! (length curve - 1)"
      using sorted_wrt_nth_less [OF st, of j "length curve - 1"] 3 j
      by (simp add: curve_steps_length)
    have hi: "k \<le> ?steps ! (j - 1 + 1)" using j jj by simp
    have v1: "(?steps ! (j - 1 + 1), y) \<in> set curve" using v j jj by simp
    from curve_segment(1) [OF d i lo hi below y' v1] lo
    have "linearInterpolation curve k = Value y" using j jj by simp
    moreover from curve_segment(3) [OF d i lo hi below y' v1]
    have "smoothInterpolation curve k = Value y" using j jj by simp
    ultimately show ?thesis by simp
  qed
qed


lemma last_key_greatest:
  assumes d: "distinct (map fst curve)" and "(k, y) \<in> set curve"
  shows "k \<le> curve_steps curve ! (length curve - 1)"
proof -
  from key_position [OF assms(2)] obtain j where j: "j < length curve" "curve_steps curve ! j = k"
    by auto
  then have "curve_steps curve ! j \<le> curve_steps curve ! (length curve - 1)"
    by (intro nth_le_strict [OF curve_steps_strict [OF d]]) (simp_all add: curve_steps_length)
  with j show ?thesis by simp
qed

lemma linear_between:
  assumes d: "distinct (map fst curve)" and nb: "neighbours curve (k0, y0) (k1, y1)"
    and x: "k0 \<le> x" "x \<le> k1"
  shows "linearInterpolation curve x = Value (y0 + (y1 - y0) * ((x - k0) / (k1 - k0)))"
proof -
  from nb have v0: "(k0, y0) \<in> set curve" and v1: "(k1, y1) \<in> set curve" and lt: "k0 < k1"
    by (simp_all add: neighbours_def)
  consider "x = k0" | "x = k1" | "k0 < x" "x < k1" using x by linarith
  then show ?thesis
  proof cases
    case 1
    with interpolation_at_key [OF d v0] show ?thesis by simp
  next
    case 2
    with interpolation_at_key [OF d v1] lt show ?thesis by simp
  next
    case 3
    from neighbours_position [OF d nb] obtain i where
      i: "i + 1 < length curve" "curve_steps curve ! i = k0" "curve_steps curve ! (i + 1) = k1"
      by auto
    from 3 last_key_greatest [OF d v1] have below: "x < curve_steps curve ! (length curve - 1)"
      by simp
    from curve_segment(1) [OF d i(1), of x y0 y1] 3 i below v0 v1 show ?thesis by simp
  qed
qed

lemma staircase_between:
  assumes d: "distinct (map fst curve)" and nb: "neighbours curve (k0, y0) (k1, y1)"
    and x: "k0 < x" "x \<le> k1" and later: "x < k1 \<or> (\<exists>k\<in>fst ` set curve. k1 < k)"
  shows "staircaseLerp curve x = Value y0"
proof -
  from nb have v0: "(k0, y0) \<in> set curve" and v1: "(k1, y1) \<in> set curve"
    by (simp_all add: neighbours_def)
  from neighbours_position [OF d nb] obtain i where
    i: "i + 1 < length curve" "curve_steps curve ! i = k0" "curve_steps curve ! (i + 1) = k1"
    by auto
  have below: "x < curve_steps curve ! (length curve - 1)"
  proof (cases "x < k1")
    case True
    with last_key_greatest [OF d v1] show ?thesis by simp
  next
    case False
    with later obtain k y where "(k, y) \<in> set curve" "k1 < k" by auto
    with last_key_greatest [OF d this(1)] x show ?thesis by simp
  qed
  from curve_segment(2) [OF d i(1), of x y0 y1] x i below v0 v1 show ?thesis by simp
qed

lemma staircase_first_key:
  assumes d: "distinct (map fst curve)" and v: "(k, y) \<in> set curve"
    and least: "\<forall>k'\<in>fst ` set curve. k \<le> k'"
  shows "staircaseLerp curve k = Value y"
proof -
  from key_position [OF v] obtain j where j: "j < length curve" "curve_steps curve ! j = k"
    by auto
  then have n: "0 < length curve" by linarith
  then have "curve_steps curve ! 0 \<in> set (curve_steps curve)"
    by (simp add: curve_steps_length)
  with least have "k \<le> curve_steps curve ! 0" unfolding curve_steps_set by blast
  moreover have "curve_steps curve ! 0 \<le> curve_steps curve ! j"
    using j by (intro nth_le_strict [OF curve_steps_strict [OF d]]) (simp_all add: curve_steps_length)
  ultimately have "curve_steps curve ! 0 = k" using j by simp
  with curve_first_branch(3) [OF d n, of k y] v show ?thesis by simp
qed

lemma staircase_last_key:
  assumes d: "distinct (map fst curve)" and v: "(k, y) \<in> set curve"
    and greatest: "\<forall>k'\<in>fst ` set curve. k' \<le> k"
  shows "staircaseLerp curve k = Value y"
proof -
  from key_position [OF v] have n: "0 < length curve" by auto
  then have "curve_steps curve ! (length curve - 1) \<in> set (curve_steps curve)"
    by (simp add: curve_steps_length)
  with greatest have "curve_steps curve ! (length curve - 1) \<le> k"
    unfolding curve_steps_set by blast
  with last_key_greatest [OF d v] have "curve_steps curve ! (length curve - 1) = k" by simp
  with curve_last_branch [OF d n, of k y] v show ?thesis by simp
qed

text \<open>
  C4, as the code has it. For a curve with distinct keys: between any two
  neighbouring keys \<open>k0 < k1\<close>, ends included, the \<^verbatim>\<open>linear\<close> shape is
  \<open>y0 + (y1 - y0) * (x - k0) / (k1 - k0)\<close>; the \<^verbatim>\<open>smooth\<close> shape returns the keyed
  value at every key; the \<^verbatim>\<open>staircase\<close> shape returns \<open>y0\<close> strictly between the
  two keys, returns the keyed value at the first and at the last key, and at a key
  \<open>k1\<close> that is not the last one still returns the value \<open>y0\<close> of the key before.
\<close>

theorem curve_shapes:
  assumes "distinct (map fst curve)"
  shows "(neighbours curve (k0, y0) (k1, y1) \<and> k0 \<le> x \<and> x \<le> k1 \<longrightarrow>
            curveInterpolation curve ''linear'' x
              = Value (y0 + (y1 - y0) * ((x - k0) / (k1 - k0))))
       \<and> ((k, y) \<in> set curve \<longrightarrow> curveInterpolation curve ''smooth'' k = Value y)
       \<and> (neighbours curve (k0, y0) (k1, y1) \<and> k0 < x \<and> x < k1 \<longrightarrow>
            curveInterpolation curve ''staircase'' x = Value y0)
       \<and> ((kf, yf) \<in> set curve \<and> (\<forall>k'\<in>fst ` set curve. kf \<le> k') \<longrightarrow>
            curveInterpolation curve ''staircase'' kf = Value yf)
       \<and> ((kl, yl) \<in> set curve \<and> (\<forall>k'\<in>fst ` set curve. k' \<le> kl) \<longrightarrow>
            curveInterpolation curve ''staircase'' kl = Value yl)
       \<and> (neighbours curve (k0, y0) (k1, y1) \<and> (\<exists>k'\<in>fst ` set curve. k1 < k') \<longrightarrow>
            curveInterpolation curve ''staircase'' k1 = Value y0)"
proof (intro conjI impI)
  assume "neighbours curve (k0, y0) (k1, y1) \<and> k0 \<le> x \<and> x \<le> k1"
  then have "linearInterpolation curve x = Value (y0 + (y1 - y0) * ((x - k0) / (k1 - k0)))"
    by (intro linear_between [OF assms]) simp_all
  then show "curveInterpolation curve ''linear'' x
               = Value (y0 + (y1 - y0) * ((x - k0) / (k1 - k0)))"
    by (simp add: curveInterpolation_def)
next
  assume "(k, y) \<in> set curve"
  then show "curveInterpolation curve ''smooth'' k = Value y"
    by (simp add: curveInterpolation_def interpolation_at_key [OF assms])
next
  assume "neighbours curve (k0, y0) (k1, y1) \<and> k0 < x \<and> x < k1"
  then show "curveInterpolation curve ''staircase'' x = Value y0"
    by (simp add: curveInterpolation_def staircase_between [OF assms, of k0 y0 k1 y1 x])
next
  assume "(kf, yf) \<in> set curve \<and> (\<forall>k'\<in>fst ` set curve. kf \<le> k')"
  then show "curveInterpolation curve ''staircase'' kf = Value yf"
    by (simp add: curveInterpolation_def staircase_first_key [OF assms])
next
  assume "(kl, yl) \<in> set curve \<and> (\<forall>k'\<in>fst ` set curve. k' \<le> kl)"
  then show "curveInterpolation curve ''staircase'' kl = Value yl"
    by (simp add: curveInterpolation_def staircase_last_key [OF assms])
next
  assume a: "neighbours curve (k0, y0) (k1, y1) \<and> (\<exists>k'\<in>fst ` set curve. k1 < k')"
  then have "k0 < k1" by (simp add: neighbours_def)
  with a staircase_between [OF assms, of k0 y0 k1 y1 k1]
  show "curveInterpolation curve ''staircase'' k1 = Value y0"
    by (simp add: curveInterpolation_def)
qed

theorem curve_shapes_witness:
  "distinct (map fst [(0 :: real, 0 :: real), (1, 2), (1 / 2, 1)])
   \<and> neighbours [(0, 0), (1, 2), (1 / 2, 1)] (0, 0) (1 / 2, 1)
   \<and> curveInterpolation [(0, 0), (1, 2), (1 / 2, 1)] ''linear'' (1 / 4) = Value (1 / 2)
   \<and> curveInterpolation [(0, 0), (1, 2), (1 / 2, 1)] ''smooth'' (1 / 2) = Value 1
   \<and> curveInterpolation [(0, 0), (1, 2), (1 / 2, 1)] ''staircase'' (1 / 4) = Value 0
   \<and> curveInterpolation [(0, 0), (1, 2), (1 / 2, 1)] ''staircase'' 0 = Value 0
   \<and> curveInterpolation [(0, 0), (1, 2), (1 / 2, 1)] ''staircase'' 1 = Value 2
   \<and> curveInterpolation [(0, 0), (1, 2), (1 / 2, 1)] ''staircase'' (1 / 2) = Value 0"
  using curve_shapes [of "[(0, 0), (1, 2), (1 / 2, 1)]" 0 0 "1 / 2" 1 "1 / 4" "1 / 2" 1 0 0 1 2]
  by (simp add: neighbours_def)

text \<open>
  C4, as the specification words it, fails for the staircase shape at the left
  end of a segment that does not start at the first key: on the curve
  \<^verbatim>\<open>{0: 0, 0.5: 1, 1: 2}\<close> the value at \<open>x = 0.5\<close>, which lies in \<open>[0.5, 1)\<close>, is not
  the value \<open>1\<close> keyed at \<open>0.5\<close>.
\<close>

theorem staircase_left_end_counterexample:
  "curveInterpolation [(0, 0), (1, 2), (1 / 2, 1)] ''staircase'' (1 / 2) \<noteq> Value 1"
  by (simp add: curveInterpolation_def staircaseLerp_def curve_steps_def curve_value_def
        curve_step_def returned_def seek.simps)

section \<open>Gradients\<close>

lemma gradient_abc_table:
  "Span_gradient_table [(0, A), (1, C), (1 / 2, B)]
     = Some \<lparr>Span_steps = [0 \<mapsto> A, 1 \<mapsto> C, 1 / 2 \<mapsto> B], gradient_keys = [0, 1 / 2, 1]\<rparr>"
  by (simp add: Span_gradient_table_def gradient_min_def gradient_max_def)

lemma gradient_abc_steps:
  "gradientVectorLerp lerp [0 \<mapsto> A, 1 \<mapsto> C, 1 / 2 \<mapsto> B] [0, 1 / 2, 1] 0 = Value A"
  "gradientVectorLerp lerp [0 \<mapsto> A, 1 \<mapsto> C, 1 / 2 \<mapsto> B] [0, 1 / 2, 1] 1 = Value C"
  "gradientVectorLerp lerp [0 \<mapsto> A, 1 \<mapsto> C, 1 / 2 \<mapsto> B] [0, 1 / 2, 1] (1 / 4)
     = Value (lerp A B (1 / 2))"
  "gradientVectorLerp lerp [0 \<mapsto> A, 1 \<mapsto> C, 1 / 2 \<mapsto> B] [0, 1 / 2, 1] (- 1) = Value A"
  "gradientVectorLerp lerp [0 \<mapsto> A, 1 \<mapsto> C, 1 / 2 \<mapsto> B] [0, 1 / 2, 1] 2 = Value C"
  by (simp_all add: gradientVectorLerp_def gradientFirstLast_def gradientSubRangeLerpParams_def
        copy_def upt_rec)

lemma gradient_abc_table':
  "Span_gradient_table [(0, A), (1 / 2, B), (1, C)]
     = Some \<lparr>Span_steps = [0 \<mapsto> A, 1 / 2 \<mapsto> B, 1 \<mapsto> C], gradient_keys = [0, 1 / 2, 1]\<rparr>"
  by (simp add: Span_gradient_table_def gradient_min_def gradient_max_def)

lemma gradient_abc_steps':
  "gradientVectorLerp lerp [0 \<mapsto> A, 1 / 2 \<mapsto> B, 1 \<mapsto> C] [0, 1 / 2, 1] 0 = Value A"
  "gradientVectorLerp lerp [0 \<mapsto> A, 1 / 2 \<mapsto> B, 1 \<mapsto> C] [0, 1 / 2, 1] 1 = Value C"
  "gradientVectorLerp lerp [0 \<mapsto> A, 1 / 2 \<mapsto> B, 1 \<mapsto> C] [0, 1 / 2, 1] (1 / 4)
     = Value (lerp A B (1 / 2))"
  "gradientVectorLerp lerp [0 \<mapsto> A, 1 / 2 \<mapsto> B, 1 \<mapsto> C] [0, 1 / 2, 1] (- 1) = Value A"
  "gradientVectorLerp lerp [0 \<mapsto> A, 1 / 2 \<mapsto> B, 1 \<mapsto> C] [0, 1 / 2, 1] 2 = Value C"
  by (simp_all add: gradientVectorLerp_def gradientFirstLast_def gradientSubRangeLerpParams_def
        copy_def upt_rec)

text \<open>
  C5. For the gradient \<^verbatim>\<open>{0: A, 0.5: B, 1: C}\<close>, with its entries in the order in
  which \<^verbatim>\<open>Object.keys\<close> lists them (\<open>0, 1, 0.5\<close>) or in the order written, the
  stepper returns \<open>A\<close> at \<open>0\<close>, \<open>C\<close> at \<open>1\<close>, the \<^verbatim>\<open>lerp\<close> of \<open>A\<close> towards \<open>B\<close> by one
  half at \<open>0.25\<close>, \<open>A\<close> at \<open>-1\<close> and \<open>C\<close> at \<open>2\<close>; and for each value type the
  \<^verbatim>\<open>lerp\<close> by one half is the componentwise midpoint.
\<close>

theorem gradient_three_keys:
  "calls (Span_gradient no_timer wrapper lerp [(0, A), (1, C), (1 / 2, B)] None)
         [0, 1, 1 / 4, - 1, 2]
     = [Value A, Value C, Value (lerp A B (1 / 2)), Value A, Value C]
   \<and> calls (Span_gradient no_timer wrapper lerp [(0, A), (1 / 2, B), (1, C)] None)
         [0, 1, 1 / 4, - 1, 2]
     = [Value A, Value C, Value (lerp A B (1 / 2)), Value A, Value C]
   \<and> Scalar_lerp (Scalar a) (Scalar b) (1 / 2) = Scalar ((a + b) / 2)
   \<and> Vector2_lerp (Vector2 a1 a2) (Vector2 b1 b2) (1 / 2)
       = Vector2 ((a1 + b1) / 2) ((a2 + b2) / 2)
   \<and> Vector3_lerp (Vector3 a1 a2 a3) (Vector3 b1 b2 b3) (1 / 2)
       = Vector3 ((a1 + b1) / 2) ((a2 + b2) / 2) ((a3 + b3) / 2)
   \<and> Vector4_lerp (Vector4 a1 a2 a3 a4) (Vector4 b1 b2 b3 b4) (1 / 2)
       = Vector4 ((a1 + b1) / 2) ((a2 + b2) / 2) ((a3 + b3) / 2) ((a4 + b4) / 2)
   \<and> Color_lerp (Color a1 a2 a3) (Color b1 b2 b3) (1 / 2)
       = Color ((a1 + b1) / 2) ((a2 + b2) / 2) ((a3 + b3) / 2)"
  by (simp add: Span_gradient_def Span_stepper_no_timer gradient_abc_table gradient_abc_table'
        calls_pure_step gradient_abc_steps gradient_abc_steps' MathUtils_lerp_def field_simps
        del: calls.simps)

text \<open>
  The running minimum of \<^verbatim>\<open>Span.gradient\<close> is the smallest key; the running
  maximum is the largest key only when that key is not negative.
\<close>

lemma foldl_min_from:
  "foldl (\<lambda>m key. case m of Infinity \<Rightarrow> Num key | Num r \<Rightarrow> Num (min r key)) (Num m) keys
     = Num (Min (insert m (set keys)))"
proof (induction keys arbitrary: m)
  case Nil
  show ?case by simp
next
  case (Cons k ks)
  have "Min (insert (min m k) (set ks)) = Min (insert m (insert k (set ks)))"
    by (cases "ks = []") (simp_all add: min.assoc)
  with Cons.IH [of "min m k"] show ?case by simp
qed

lemma gradient_min_is_Min:
  "keys \<noteq> [] \<Longrightarrow> gradient_min keys = Num (Min (set keys))"
  by (cases keys) (simp_all add: gradient_min_def foldl_min_from)

lemma foldl_max_from: "foldl max (m :: real) keys = Max (insert m (set keys))"
proof (induction keys arbitrary: m)
  case Nil
  show ?case by simp
next
  case (Cons k ks)
  have "Max (insert (max m k) (set ks)) = Max (insert m (insert k (set ks)))"
    by (cases "ks = []") (simp_all add: max.assoc)
  with Cons.IH [of "max m k"] show ?case by simp
qed

lemma gradient_max_is_Max:
  "keys \<noteq> [] \<Longrightarrow> gradient_max keys = max 0 (Max (set keys))"
  by (simp add: gradient_max_def foldl_max_from)

text \<open>
  C2 at the gradient \<^verbatim>\<open>{-2: a, -1: b}\<close>: \<^verbatim>\<open>max\<close> starts at \<open>0\<close> and stays there, the
  keys are normalised by \<open>(key + 2) / 2\<close>, and the largest key \<open>-1\<close> is stored at
  \<open>0.5\<close>; no key is stored at \<open>1\<close>.
\<close>

theorem gradient_negative_keys:
  "map_option gradient_keys (Span_gradient_table [(- 2, a), (- 1, b)]) = Some [0, 1 / 2]
   \<and> map_option Span_steps (Span_gradient_table [(- 2, a), (- 1, b)])
       = Some [0 \<mapsto> a, 1 / 2 \<mapsto> b]"
  by (simp add: Span_gradient_table_def gradient_min_def gradient_max_def)

section \<open>Interpolation between two bounds\<close>























text \<open>
  C8 at the scalar configuration \<^verbatim>\<open>start = 0, end = 10, easing = "linear",
  forceInteger = true\<close>: the stepper returns the scalar \<open>2.5\<close> at progress \<open>0.25\<close>;
  the value is not rounded. The helper \<^verbatim>\<open>lerpScalar\<close>, which no Span calls, rounds
  it to \<open>3\<close>.
\<close>

theorem ScalarSpan_forceInteger:
  "calls (Span_lerp ScalarSpan__lerp no_timer wrapper (Scalar 0) (Scalar 10) (Some ''linear'')
            (Some True) None) [1 / 4]
     = [Value (Scalar (5 / 2))]
   \<and> lerpScalar (Scalar 0) (Scalar 10) (1 / 4) True = Scalar 3"
  by (simp add: Span_lerp_def Span_stepper_no_timer ScalarSpan__lerp_def calls_pure_step
        blend_def apply_easing_def easings_def easing_table_def linear_easing_def Span_bound_def
        MathUtils_lerp_def Math_round_def del: calls.simps)

section \<open>Configurations outside the documented names and sizes\<close>



















end
